theory Spec2Isabelle
  imports Complex_Main "HOL-Library.Log_Nat"
begin

section \<open>Exact Shapley values: the explainer of shapley\_explainer.py\<close>

text \<open>
  Python integers are \<open>int\<close>. A Python float is the rational number it denotes. The true
  division of two integers, the one operation of the code that turns integers into a float, is
  rounded to binary64 as CPython does it (to nearest, ties to even, gradual underflow to zero,
  \<open>OverflowError\<close> beyond the largest float). Sums, differences, products and means of floats are
  taken exactly. The one non-number the code itself can produce, the \<open>nan\<close> that \<open>np.mean\<close>
  returns on an empty array, is kept as a value of its own.
\<close>

datatype error = IndexError | ValueError | ZeroDivisionError | OverflowError

datatype pyfloat = Fin rat | NaN

fun fadd :: "pyfloat \<Rightarrow> pyfloat \<Rightarrow> pyfloat" where
  "fadd (Fin a) (Fin b) = Fin (a + b)"
| "fadd _ _ = NaN"

fun fsub :: "pyfloat \<Rightarrow> pyfloat \<Rightarrow> pyfloat" where
  "fsub (Fin a) (Fin b) = Fin (a - b)"
| "fsub _ _ = NaN"

fun fmul :: "pyfloat \<Rightarrow> pyfloat \<Rightarrow> pyfloat" where
  "fmul (Fin a) (Fin b) = Fin (a * b)"
| "fmul _ _ = NaN"

subsection \<open>Subset enumerator\<close>

text \<open>\<open>itertools.combinations(items, r)\<close>: the \<open>r\<close>-long subsequences of \<open>items\<close>, in
  lexicographic order of their positions.\<close>

fun combinations :: "'a list \<Rightarrow> nat \<Rightarrow> 'a list list" where
  "combinations xs 0 = [[]]"
| "combinations [] (Suc r) = []"
| "combinations (x # xs) (Suc r) =
     map ((#) x) (combinations xs r) @ combinations xs (Suc r)"

text \<open>\<open>chain.from_iterable(combinations(items, r) for r in range(len(items) + 1))\<close>\<close>

definition get_all_subsets :: "'a list \<Rightarrow> 'a list list" where
  "get_all_subsets items = concat (map (combinations items) [0 ..< length items + 1])"

text \<open>\<open>range(n)\<close> for a Python integer \<open>n\<close>; empty when \<open>n \<le> 0\<close>.\<close>

definition range_py :: "int \<Rightarrow> int list" where
  "range_py n = [0 .. n - 1]"

definition get_all_other_feature_subsets :: "int \<Rightarrow> int \<Rightarrow> int list list" where
  "get_all_other_feature_subsets n_features feature_of_interest =
     (let other_features = filter (\<lambda>i. i \<noteq> feature_of_interest) (range_py n_features)
      in get_all_subsets other_features)"

subsection \<open>Permutation weight\<close>

text \<open>\<open>math.factorial\<close> raises \<open>ValueError\<close> on a negative argument.\<close>

definition factorial :: "int \<Rightarrow> error + int" where
  "factorial n = (if n < 0 then Inl ValueError else Inr (fact (nat n)))"

text \<open>Rounding to the nearest integer, a tie to the even one.\<close>

definition round_half_even :: "rat \<Rightarrow> int" where
  "round_half_even x =
     (let f = \<lfloor>x\<rfloor>; d = x - of_int f
      in if d < 1 / 2 then f else if 1 / 2 < d then f + 1 else if even f then f else f + 1)"

text \<open>The binary exponent of the quotient of two positive integers: the \<open>e\<close> with
  \<open>2 ^ e \<le> a / b < 2 ^ (e + 1)\<close>, found from the bit lengths of the operands.\<close>

definition binary_exponent :: "int \<Rightarrow> int \<Rightarrow> int" where
  "binary_exponent a b =
     (let d = bitlen a - bitlen b
      in if 2 powi d \<le> (of_int a / of_int b :: rat) then d else d - 1)"

text \<open>
  \<open>a / b\<close> for Python integers: \<open>ZeroDivisionError\<close> for a zero divisor; otherwise the
  quotient rounded to binary64, that is to a multiple of \<open>2 ^ p\<close> where \<open>p\<close> is the exponent of
  the quotient less the 52 fraction bits, and at least \<open>-1074\<close> (the subnormal spacing);
  \<open>OverflowError\<close> when the rounded quotient reaches \<open>2 ^ 1024\<close>.
\<close>

definition true_divide :: "int \<Rightarrow> int \<Rightarrow> error + rat" where
  "true_divide a b =
     (if b = 0 then Inl ZeroDivisionError
      else if a = 0 then Inr 0
      else
        (let q = of_int a / of_int b;
             p = max (binary_exponent \<bar>a\<bar> \<bar>b\<bar> - 52) (- 1074);
             r = of_int (round_half_even (q / 2 powi p)) * 2 powi p
         in if 2 ^ 1024 \<le> \<bar>r\<bar> then Inl OverflowError else Inr r))"

text \<open>\<open>factorial(n_subset) * factorial(n_features - n_subset - 1) / factorial(n_features)\<close>,
  the operands evaluated from left to right; the product is an integer and \<open>/\<close> is the true
  division of two integers.\<close>

definition permutation_factor :: "int \<Rightarrow> int \<Rightarrow> error + rat" where
  "permutation_factor n_features n_subset =
     (case factorial n_subset of Inl e \<Rightarrow> Inl e | Inr a \<Rightarrow>
      case factorial (n_features - n_subset - 1) of Inl e \<Rightarrow> Inl e | Inr b \<Rightarrow>
      case factorial n_features of Inl e \<Rightarrow> Inl e | Inr c \<Rightarrow> true_divide (a * b) c)"

subsection \<open>Arrays and the store\<close>

text \<open>
  A two-dimensional NumPy array: its dtype, its column count (kept apart from the rows, so
  that shape \<open>(0, M)\<close> exists) and its rows. Input data and model predictions are finite
  numbers; the output array can also hold \<open>nan\<close>.
\<close>

datatype dtype = Int64 | Float64

record 'a ndarray =
  arr_dtype :: dtype
  arr_ncols :: nat
  arr_rows :: "'a list list"

text \<open>Conversion of a float to an integer dtype drops the fraction (towards zero).\<close>

definition trunc :: "rat \<Rightarrow> int" where
  "trunc v = (if 0 \<le> v then \<lfloor>v\<rfloor> else \<lceil>v\<rceil>)"

text \<open>The integers an \<open>int64\<close> cell can hold.\<close>

definition in_int64 :: "int \<Rightarrow> bool" where
  "in_int64 n \<longleftrightarrow> - (2 ^ 63) \<le> n \<and> n < 2 ^ 63"

text \<open>The value a cell of the given dtype holds after a number is assigned to it: an integer
  dtype truncates, and raises \<open>OverflowError\<close> when the integer does not fit.\<close>

definition cast_cell :: "dtype \<Rightarrow> rat \<Rightarrow> error + rat" where
  "cast_cell t v =
     (case t of Float64 \<Rightarrow> Inr v
      | Int64 \<Rightarrow> (if in_int64 (trunc v) then Inr (of_int (trunc v)) else Inl OverflowError))"

text \<open>Assigning a Python float to a cell: an integer dtype truncates, refuses \<open>nan\<close> with
  \<open>ValueError\<close>, and raises \<open>OverflowError\<close> when the integer does not fit.\<close>

definition store_float :: "dtype \<Rightarrow> pyfloat \<Rightarrow> error + pyfloat" where
  "store_float t v =
     (case t of Float64 \<Rightarrow> Inr v
      | Int64 \<Rightarrow>
          (case v of NaN \<Rightarrow> Inl ValueError
           | Fin r \<Rightarrow>
               (if in_int64 (trunc r) then Inr (Fin (of_int (trunc r))) else Inl OverflowError)))"

text \<open>Python indexing: a negative index counts from the end, an index out of range raises.\<close>

definition py_index :: "nat \<Rightarrow> int \<Rightarrow> error + nat" where
  "py_index n j =
     (let k = (if j < 0 then j + int n else j)
      in if 0 \<le> k \<and> k < int n then Inr (nat k) else Inl IndexError)"

text \<open>\<open>instance[j]\<close>\<close>

definition getitem :: "'a list \<Rightarrow> int \<Rightarrow> error + 'a" where
  "getitem xs j = (case py_index (length xs) j of Inl e \<Rightarrow> Inl e | Inr k \<Rightarrow> Inr (xs ! k))"

text \<open>\<open>dataset[:, j] = v\<close>: the scalar is broadcast to every row of column \<open>j\<close>.\<close>

definition setitem_column :: "rat ndarray \<Rightarrow> int \<Rightarrow> rat \<Rightarrow> error + rat ndarray" where
  "setitem_column d j v =
     (case py_index (arr_ncols d) j of Inl e \<Rightarrow> Inl e
      | Inr k \<Rightarrow>
          (case cast_cell (arr_dtype d) v of Inl e \<Rightarrow> Inl e
           | Inr c \<Rightarrow> Inr (d\<lparr>arr_rows := map (\<lambda>r. r[k := c]) (arr_rows d)\<rparr>)))"

text \<open>\<open>out[i, j] = v\<close> for a Python float \<open>v\<close>\<close>

definition setitem_cell :: "pyfloat ndarray \<Rightarrow> nat \<Rightarrow> nat \<Rightarrow> pyfloat \<Rightarrow> error + pyfloat ndarray" where
  "setitem_cell out i j v =
     (if \<not> (i < length (arr_rows out) \<and> j < arr_ncols out) then Inl IndexError
      else case store_float (arr_dtype out) v of Inl e \<Rightarrow> Inl e
        | Inr c \<Rightarrow> Inr (out\<lparr>arr_rows := (arr_rows out)[i := (arr_rows out ! i)[j := c]]\<rparr>))"

text \<open>\<open>np.zeros_like(X)\<close>: the shape and dtype of \<open>X\<close>, every cell zero.\<close>

definition zeros_like :: "rat ndarray \<Rightarrow> pyfloat ndarray" where
  "zeros_like X =
     \<lparr>arr_dtype = arr_dtype X, arr_ncols = arr_ncols X,
      arr_rows = replicate (length (arr_rows X)) (replicate (arr_ncols X) (Fin 0))\<rparr>"

text \<open>\<open>np.mean\<close> of the predictions, flattened; \<open>nan\<close> when there are none.\<close>

definition np_mean :: "rat list \<Rightarrow> pyfloat" where
  "np_mean ps = (if ps = [] then NaN else Fin (sum_list ps / of_nat (length ps)))"

text \<open>
  Arrays are objects: a variable holds a reference, and an assignment through one reference
  is seen through every other reference to the same object. The store maps references to
  arrays; \<open>fresh\<close> is the next unused reference.
\<close>

type_synonym addr = nat

record heap =
  objs :: "addr \<Rightarrow> rat ndarray"
  fresh :: addr

text \<open>\<open>deepcopy(a)\<close>: a new object with the same contents.\<close>

definition deepcopy :: "addr \<Rightarrow> heap \<Rightarrow> addr \<times> heap" where
  "deepcopy a h = (fresh h, h\<lparr>objs := (objs h)(fresh h := objs h a), fresh := Suc (fresh h)\<rparr>)"

text \<open>The explainer object: the model, a deterministic function from the array it is given
  to its predictions, and a reference to the background dataset.\<close>

record explainer =
  model :: "rat ndarray \<Rightarrow> rat list"
  background_dataset :: addr

subsection \<open>Conditional expectation approximator\<close>

text \<open>The loop \<open>for j in ...: if j in feature_subset: dataset[:, j] = instance[j]\<close>\<close>

fun overwrite_columns ::
  "int list \<Rightarrow> int list \<Rightarrow> rat list \<Rightarrow> addr \<Rightarrow> heap \<Rightarrow> (error + unit) \<times> heap" where
  "overwrite_columns [] feature_subset instance dataset h = (Inr (), h)"
| "overwrite_columns (j # js) feature_subset instance dataset h =
     (if j \<in> set feature_subset then
        (case getitem instance j of Inl e \<Rightarrow> (Inl e, h)
         | Inr v \<Rightarrow>
            (case setitem_column (objs h dataset) j v of Inl e \<Rightarrow> (Inl e, h)
             | Inr a \<Rightarrow>
                overwrite_columns js feature_subset instance dataset
                  (h\<lparr>objs := (objs h)(dataset := a)\<rparr>)))
      else overwrite_columns js feature_subset instance dataset h)"

text \<open>\<open>_subset_model_approximation\<close>: \<open>n_features\<close> is \<open>len(dataset)\<close>, the number of rows,
  and the loop runs over \<open>range(0, n_features - 1)\<close>.\<close>

definition subset_model_approximation ::
  "explainer \<Rightarrow> int list \<Rightarrow> rat list \<Rightarrow> heap \<Rightarrow> (error + pyfloat) \<times> heap" where
  "subset_model_approximation self feature_subset instance h =
     (let (dataset, h1) = deepcopy (background_dataset self) h;
          n_features = int (length (arr_rows (objs h1 dataset)))
      in case overwrite_columns [0 .. n_features - 1 - 1] feature_subset instance dataset h1 of
           (Inl e, h2) \<Rightarrow> (Inl e, h2)
         | (Inr u, h2) \<Rightarrow>
             (let predictions = model self (objs h2 dataset)
              in (Inr (np_mean predictions), h2)))"

subsection \<open>Shapley aggregator\<close>

text \<open>The loop of \<open>_compute_single_shapley_value\<close> over the coalitions, with its accumulator.\<close>

fun accumulate_subsets ::
  "explainer \<Rightarrow> int \<Rightarrow> rat list \<Rightarrow> int \<Rightarrow> int list list \<Rightarrow> pyfloat \<Rightarrow> heap
     \<Rightarrow> (error + pyfloat) \<times> heap" where
  "accumulate_subsets self feature instance n_features [] accumulator h = (Inr accumulator, h)"
| "accumulate_subsets self feature instance n_features (S # Ss) accumulator h =
     (let S_plus_feature = S @ [feature]
      in case subset_model_approximation self S instance h of
           (Inl e, h1) \<Rightarrow> (Inl e, h1)
         | (Inr without_feature, h1) \<Rightarrow>
             (case subset_model_approximation self S_plus_feature instance h1 of
                (Inl e, h2) \<Rightarrow> (Inl e, h2)
              | (Inr with_feature, h2) \<Rightarrow>
                  (case permutation_factor n_features (int (length S)) of
                     Inl e \<Rightarrow> (Inl e, h2)
                   | Inr weight \<Rightarrow>
                       accumulate_subsets self feature instance n_features Ss
                         (fadd accumulator (fmul (Fin weight) (fsub with_feature without_feature)))
                         h2)))"

definition compute_single_shapley_value ::
  "explainer \<Rightarrow> int \<Rightarrow> rat list \<Rightarrow> heap \<Rightarrow> (error + pyfloat) \<times> heap" where
  "compute_single_shapley_value self feature instance h =
     (let n_features = int (length instance)
      in accumulate_subsets self feature instance n_features
           (get_all_other_feature_subsets n_features feature) (Fin 0) h)"

text \<open>The inner loop of \<open>shapley_values\<close>, over the features of instance \<open>i\<close>.\<close>

fun fill_row ::
  "explainer \<Rightarrow> rat ndarray \<Rightarrow> nat \<Rightarrow> nat list \<Rightarrow> pyfloat ndarray \<Rightarrow> heap
     \<Rightarrow> (error + pyfloat ndarray) \<times> heap" where
  "fill_row self X i [] out h = (Inr out, h)"
| "fill_row self X i (j # js) out h =
     (case compute_single_shapley_value self (int j) (arr_rows X ! i) h of
        (Inl e, h1) \<Rightarrow> (Inl e, h1)
      | (Inr v, h1) \<Rightarrow>
          (case setitem_cell out i j v of Inl e \<Rightarrow> (Inl e, h1)
           | Inr out1 \<Rightarrow> fill_row self X i js out1 h1))"

text \<open>The outer loop, over the instances.\<close>

fun fill_rows ::
  "explainer \<Rightarrow> rat ndarray \<Rightarrow> nat list \<Rightarrow> nat \<Rightarrow> pyfloat ndarray \<Rightarrow> heap
     \<Rightarrow> (error + pyfloat ndarray) \<times> heap" where
  "fill_rows self X [] n_features out h = (Inr out, h)"
| "fill_rows self X (i # is) n_features out h =
     (case fill_row self X i [0 ..< n_features] out h of
        (Inl e, h1) \<Rightarrow> (Inl e, h1)
      | (Inr out1, h1) \<Rightarrow> fill_rows self X is n_features out1 h1)"

definition shapley_values ::
  "explainer \<Rightarrow> rat ndarray \<Rightarrow> heap \<Rightarrow> (error + pyfloat ndarray) \<times> heap" where
  "shapley_values self X h =
     (let out = zeros_like X;
          n_instances = length (arr_rows X);
          n_features = arr_ncols X
      in fill_rows self X [0 ..< n_instances] n_features out h)"

subsection \<open>The results as functions of the background array\<close>

text \<open>
  The operations above thread the store. The definitions below compute the same results from
  the contents of the background array alone; the lemmas of the next section show that the
  two agree, so that theorems about the operations can be proved on these.
\<close>

fun overwrite_value :: "int list \<Rightarrow> int list \<Rightarrow> rat list \<Rightarrow> rat ndarray \<Rightarrow> error + rat ndarray" where
  "overwrite_value [] S inst d = Inr d"
| "overwrite_value (j # js) S inst d =
     (if j \<in> set S then
        (case getitem inst j of Inl e \<Rightarrow> Inl e
         | Inr v \<Rightarrow> (case setitem_column d j v of Inl e \<Rightarrow> Inl e
                     | Inr a \<Rightarrow> overwrite_value js S inst a))
      else overwrite_value js S inst d)"

definition synthetic_dataset :: "rat ndarray \<Rightarrow> int list \<Rightarrow> rat list \<Rightarrow> error + rat ndarray" where
  "synthetic_dataset bg S inst = overwrite_value [0 .. int (length (arr_rows bg)) - 2] S inst bg"

definition approximation_value ::
  "(rat ndarray \<Rightarrow> rat list) \<Rightarrow> rat ndarray \<Rightarrow> int list \<Rightarrow> rat list \<Rightarrow> error + pyfloat" where
  "approximation_value m bg S inst =
     (case synthetic_dataset bg S inst of Inl e \<Rightarrow> Inl e | Inr d \<Rightarrow> Inr (np_mean (m d)))"

text \<open>\<open>frame h h'\<close>: every object of \<open>h\<close> is still there in \<open>h'\<close>, with the same contents.\<close>

definition frame :: "heap \<Rightarrow> heap \<Rightarrow> bool" where
  "frame h h' \<longleftrightarrow> fresh h \<le> fresh h' \<and> (\<forall>a < fresh h. objs h' a = objs h a)"

fun accumulate_value ::
  "(rat ndarray \<Rightarrow> rat list) \<Rightarrow> rat ndarray \<Rightarrow> int \<Rightarrow> rat list \<Rightarrow> int \<Rightarrow> int list list \<Rightarrow> pyfloat
     \<Rightarrow> error + pyfloat" where
  "accumulate_value m bg f inst n [] acc = Inr acc"
| "accumulate_value m bg f inst n (S # Ss) acc =
     (case approximation_value m bg S inst of Inl e \<Rightarrow> Inl e
      | Inr wo \<Rightarrow>
         (case approximation_value m bg (S @ [f]) inst of Inl e \<Rightarrow> Inl e
          | Inr wi \<Rightarrow>
             (case permutation_factor n (int (length S)) of Inl e \<Rightarrow> Inl e
              | Inr w \<Rightarrow> accumulate_value m bg f inst n Ss (fadd acc (fmul (Fin w) (fsub wi wo))))))"

definition single_value ::
  "(rat ndarray \<Rightarrow> rat list) \<Rightarrow> rat ndarray \<Rightarrow> int \<Rightarrow> rat list \<Rightarrow> error + pyfloat" where
  "single_value m bg f inst =
     accumulate_value m bg f inst (int (length inst))
       (get_all_other_feature_subsets (int (length inst)) f) (Fin 0)"

fun fill_row_value ::
  "(rat ndarray \<Rightarrow> rat list) \<Rightarrow> rat ndarray \<Rightarrow> rat ndarray \<Rightarrow> nat \<Rightarrow> nat list \<Rightarrow> pyfloat ndarray
     \<Rightarrow> error + pyfloat ndarray" where
  "fill_row_value m bg X i [] out = Inr out"
| "fill_row_value m bg X i (j # js) out =
     (case single_value m bg (int j) (arr_rows X ! i) of Inl e \<Rightarrow> Inl e
      | Inr v \<Rightarrow> (case setitem_cell out i j v of Inl e \<Rightarrow> Inl e
                  | Inr out1 \<Rightarrow> fill_row_value m bg X i js out1))"

fun fill_rows_value ::
  "(rat ndarray \<Rightarrow> rat list) \<Rightarrow> rat ndarray \<Rightarrow> rat ndarray \<Rightarrow> nat list \<Rightarrow> nat \<Rightarrow> pyfloat ndarray
     \<Rightarrow> error + pyfloat ndarray" where
  "fill_rows_value m bg X [] n out = Inr out"
| "fill_rows_value m bg X (i # is) n out =
     (case fill_row_value m bg X i [0 ..< n] out of Inl e \<Rightarrow> Inl e
      | Inr out1 \<Rightarrow> fill_rows_value m bg X is n out1)"

definition shapley_matrix ::
  "(rat ndarray \<Rightarrow> rat list) \<Rightarrow> rat ndarray \<Rightarrow> rat ndarray \<Rightarrow> error + pyfloat ndarray" where
  "shapley_matrix m bg X =
     fill_rows_value m bg X [0 ..< length (arr_rows X)] (arr_ncols X) (zeros_like X)"

subsection \<open>The synthetic dataset in the words of the specification\<close>

text \<open>
  The specification's synthetic dataset: a copy of the background dataset in which every column
  whose index belongs to the coalition holds the instance's value at that index, in every row,
  and every other column keeps its background values. It is stated for an instance with one
  value per column.
\<close>

definition spec_synthetic_dataset :: "rat ndarray \<Rightarrow> int list \<Rightarrow> rat list \<Rightarrow> rat ndarray" where
  "spec_synthetic_dataset bg coalition inst =
     bg\<lparr>arr_rows :=
          map (\<lambda>r. map (\<lambda>j. if int j \<in> set coalition then inst ! j else r ! j) [0 ..< length r])
            (arr_rows bg)\<rparr>"

text \<open>The specification's weight, \<open>s! * (M - s - 1)! / M!\<close>, as an exact number.\<close>

definition exact_weight :: "int \<Rightarrow> int \<Rightarrow> rat" where
  "exact_weight M s = fact (nat s) * fact (nat (M - s - 1)) / fact (nat M)"

text \<open>The weight of a call of \<open>permutation_factor\<close> that returned one.\<close>

definition weight_of :: "error + rat \<Rightarrow> rat" where
  "weight_of r = (case r of Inl e \<Rightarrow> 0 | Inr w \<Rightarrow> w)"

subsection \<open>Concrete models and arrays\<close>

definition empty_array :: "rat ndarray" where
  "empty_array = \<lparr>arr_dtype = Float64, arr_ncols = 0, arr_rows = []\<rparr>"

text \<open>The store once the explainer is constructed: the background dataset is object 0.\<close>

definition heap_with :: "rat ndarray \<Rightarrow> heap" where
  "heap_with bg = \<lparr>objs = (\<lambda>a. empty_array)(0 := bg), fresh = 1\<rparr>"

text \<open>\<open>f(x0, x1) = 2 * x0 + 3 * x1\<close>, one prediction per row.\<close>

definition linear_model :: "rat ndarray \<Rightarrow> rat list" where
  "linear_model d = map (\<lambda>r. case r of [x0, x1] \<Rightarrow> 2 * x0 + 3 * x1 | _ \<Rightarrow> 0) (arr_rows d)"

text \<open>\<open>f(x0, ...) = x0\<close>, one prediction per row.\<close>

definition first_feature_model :: "rat ndarray \<Rightarrow> rat list" where
  "first_feature_model d = map (\<lambda>r. case r of [] \<Rightarrow> 0 | x0 # _ \<Rightarrow> x0) (arr_rows d)"

text \<open>A model that returns a single prediction, however many rows it is given.\<close>

definition single_prediction_model :: "rat ndarray \<Rightarrow> rat list" where
  "single_prediction_model d = [7]"

definition explainer_linear :: explainer where
  "explainer_linear = \<lparr>model = linear_model, background_dataset = 0\<rparr>"

definition explainer_first :: explainer where
  "explainer_first = \<lparr>model = first_feature_model, background_dataset = 0\<rparr>"

definition explainer_single_prediction :: explainer where
  "explainer_single_prediction = \<lparr>model = single_prediction_model, background_dataset = 0\<rparr>"

definition background_2x2 :: "rat ndarray" where
  "background_2x2 = \<lparr>arr_dtype = Float64, arr_ncols = 2, arr_rows = [[0, 0], [2, 2]]\<rparr>"

definition background_1x1 :: "rat ndarray" where
  "background_1x1 = \<lparr>arr_dtype = Float64, arr_ncols = 1, arr_rows = [[0]]\<rparr>"


definition X_4_6 :: "rat ndarray" where
  "X_4_6 = \<lparr>arr_dtype = Float64, arr_ncols = 2, arr_rows = [[4, 6]]\<rparr>"

definition X_1 :: "rat ndarray" where
  "X_1 = \<lparr>arr_dtype = Float64, arr_ncols = 1, arr_rows = [[1]]\<rparr>"


section \<open>Store and value lemmas\<close>

lemma overwrite_columns_fresh:
  "fresh (snd (overwrite_columns js S inst d h)) = fresh h"
  by (induction js arbitrary: h) (auto split: sum.splits)

lemma overwrite_columns_other:
  "a \<noteq> d \<Longrightarrow> objs (snd (overwrite_columns js S inst d h)) a = objs h a"
  by (induction js arbitrary: h) (auto split: sum.splits)

lemma overwrite_columns_error:
  "overwrite_value js S inst (objs h d) = Inl e \<Longrightarrow> fst (overwrite_columns js S inst d h) = Inl e"
  by (induction js arbitrary: h) (auto split: sum.splits)

lemma overwrite_columns_result:
  "overwrite_value js S inst (objs h d) = Inr r \<Longrightarrow>
     fst (overwrite_columns js S inst d h) = Inr () \<and> objs (snd (overwrite_columns js S inst d h)) d = r"
  by (induction js arbitrary: h) (auto split: sum.splits)

lemma subset_model_approximation_unfold:
  "subset_model_approximation self S inst h =
     (case overwrite_columns [0 .. int (length (arr_rows (objs h (background_dataset self)))) - 2] S inst (fresh h)
             (h\<lparr>objs := (objs h)(fresh h := objs h (background_dataset self)), fresh := Suc (fresh h)\<rparr>) of
        (Inl e, h2) \<Rightarrow> (Inl e, h2)
      | (Inr u, h2) \<Rightarrow> (Inr (np_mean (model self (objs h2 (fresh h)))), h2))"
  by (simp add: subset_model_approximation_def deepcopy_def Let_def split: prod.splits sum.splits)

lemma subset_model_approximation_result:
  "fst (subset_model_approximation self S inst h) =
     approximation_value (model self) (objs h (background_dataset self)) S inst"
proof -
  define b where "b = objs h (background_dataset self)"
  define js where "js = [0 .. int (length (arr_rows b)) - 2]"
  define h1 where "h1 = h\<lparr>objs := (objs h)(fresh h := b), fresh := Suc (fresh h)\<rparr>"
  have cell: "objs h1 (fresh h) = b" by (simp add: h1_def)
  have unf: "subset_model_approximation self S inst h =
     (case overwrite_columns js S inst (fresh h) h1 of
        (Inl e, h2) \<Rightarrow> (Inl e, h2)
      | (Inr u, h2) \<Rightarrow> (Inr (np_mean (model self (objs h2 (fresh h)))), h2))"
    by (simp add: subset_model_approximation_unfold js_def h1_def b_def)
  show ?thesis
  proof (cases "overwrite_value js S inst b")
    case (Inl e)
    then have "fst (overwrite_columns js S inst (fresh h) h1) = Inl e"
      using overwrite_columns_error[of js S inst h1 "fresh h" e] cell by simp
    then show ?thesis
      using Inl unf by (simp add: approximation_value_def synthetic_dataset_def b_def[symmetric] js_def[symmetric] split: prod.splits sum.splits)
  next
    case (Inr r)
    then have "fst (overwrite_columns js S inst (fresh h) h1) = Inr () \<and>
               objs (snd (overwrite_columns js S inst (fresh h) h1)) (fresh h) = r"
      using overwrite_columns_result[of js S inst h1 "fresh h" r] cell by simp
    then show ?thesis
      using Inr unf by (auto simp add: approximation_value_def synthetic_dataset_def b_def[symmetric] js_def[symmetric] split: prod.splits sum.splits)
  qed
qed

lemma frame_refl: "frame h h"
  by (simp add: frame_def)

lemma frame_trans: "frame h1 h2 \<Longrightarrow> frame h2 h3 \<Longrightarrow> frame h1 h3"
  by (auto simp: frame_def)

lemma subset_model_approximation_frame:
  "frame h (snd (subset_model_approximation self S inst h))"
proof -
  define h1 where "h1 = h\<lparr>objs := (objs h)(fresh h := objs h (background_dataset self)), fresh := Suc (fresh h)\<rparr>"
  define js where "js = [0 .. int (length (arr_rows (objs h (background_dataset self)))) - 2]"
  have "snd (subset_model_approximation self S inst h) = snd (overwrite_columns js S inst (fresh h) h1)"
    by (simp add: subset_model_approximation_unfold js_def h1_def split: prod.splits sum.splits)
  moreover have "fresh (snd (overwrite_columns js S inst (fresh h) h1)) = Suc (fresh h)"
    by (simp add: overwrite_columns_fresh h1_def)
  moreover have "\<forall>a < fresh h. objs (snd (overwrite_columns js S inst (fresh h) h1)) a = objs h a"
    by (simp add: overwrite_columns_other h1_def)
  ultimately show ?thesis by (simp add: frame_def)
qed

lemma frame_background:
  "frame h h' \<Longrightarrow> b < fresh h \<Longrightarrow> objs h' b = objs h b \<and> b < fresh h'"
  by (auto simp: frame_def)

lemma accumulate_subsets_result:
  "background_dataset self < fresh h \<Longrightarrow>
     fst (accumulate_subsets self f inst n Ss acc h) =
       accumulate_value (model self) (objs h (background_dataset self)) f inst n Ss acc
     \<and> frame h (snd (accumulate_subsets self f inst n Ss acc h))"
proof (induction Ss arbitrary: acc h)
  case Nil
  show ?case by (simp add: frame_refl)
next
  case (Cons S Ss)
  define b where "b = background_dataset self"
  define r1 where "r1 = subset_model_approximation self S inst h"
  define h1 where "h1 = snd r1"
  define r2 where "r2 = subset_model_approximation self (S @ [f]) inst h1"
  define h2 where "h2 = snd r2"
  have f1: "frame h h1" unfolding h1_def r1_def by (rule subset_model_approximation_frame)
  have f2: "frame h1 h2" unfolding h2_def r2_def by (rule subset_model_approximation_frame)
  have f12: "frame h h2" using f1 f2 by (rule frame_trans)
  have b1: "objs h1 b = objs h b" "b < fresh h1"
    using frame_background[OF f1, of b] Cons.prems by (simp_all add: b_def)
  have b2: "objs h2 b = objs h b" "b < fresh h2"
    using frame_background[OF f12, of b] Cons.prems by (simp_all add: b_def)
  have v1: "fst r1 = approximation_value (model self) (objs h b) S inst"
    by (simp add: r1_def b_def subset_model_approximation_result)
  have v2: "fst r2 = approximation_value (model self) (objs h b) (S @ [f]) inst"
    using b1 by (simp add: r2_def b_def subset_model_approximation_result)
  have IH: "\<And>acc'. fst (accumulate_subsets self f inst n Ss acc' h2) =
                accumulate_value (model self) (objs h b) f inst n Ss acc'
              \<and> frame h2 (snd (accumulate_subsets self f inst n Ss acc' h2))"
    using Cons.IH[of h2] b2 by (simp add: b_def)
  have unf: "accumulate_subsets self f inst n (S # Ss) acc h =
     (case r1 of (Inl e, k1) \<Rightarrow> (Inl e, k1)
      | (Inr wo, k1) \<Rightarrow>
         (case r2 of (Inl e, k2) \<Rightarrow> (Inl e, k2)
          | (Inr wi, k2) \<Rightarrow>
             (case permutation_factor n (int (length S)) of Inl e \<Rightarrow> (Inl e, k2)
              | Inr w \<Rightarrow> accumulate_subsets self f inst n Ss (fadd acc (fmul (Fin w) (fsub wi wo))) k2)))"
    by (simp add: r1_def r2_def h1_def Let_def split: prod.splits sum.splits)
  show ?case
  proof (cases r1)
    case (Pair a1 k1)
    then have k1: "k1 = h1" by (simp add: h1_def)
    have e1: "approximation_value (model self) (objs h b) S inst = a1"
      using v1 Pair by simp
    show ?thesis
    proof (cases a1)
      case (Inl e)
      then show ?thesis using Pair k1 e1 f1 unf by (simp add: b_def)
    next
      case wo: (Inr wo)
      show ?thesis
      proof (cases r2)
        case P2: (Pair a2 k2)
        then have k2: "k2 = h2" by (simp add: h2_def)
        have e2: "approximation_value (model self) (objs h b) (S @ [f]) inst = a2"
          using v2 P2 by simp
        show ?thesis
        proof (cases a2)
          case (Inl e)
          then show ?thesis using Pair k1 wo P2 k2 e1 e2 f12 unf by (simp add: b_def)
        next
          case wi: (Inr wi)
          show ?thesis
          proof (cases "permutation_factor n (int (length S))")
            case (Inl e)
            then show ?thesis using Pair k1 wo P2 k2 wi e1 e2 f12 unf by (simp add: b_def)
          next
            case (Inr w)
            then show ?thesis
              using Pair k1 wo P2 k2 wi e1 e2 unf IH[of "fadd acc (fmul (Fin w) (fsub wi wo))"] f12
              by (auto simp add: b_def intro: frame_trans)
          qed
        qed
      qed
    qed
  qed
qed

lemma compute_single_shapley_value_result:
  "background_dataset self < fresh h \<Longrightarrow>
     fst (compute_single_shapley_value self f inst h) =
       single_value (model self) (objs h (background_dataset self)) f inst
     \<and> frame h (snd (compute_single_shapley_value self f inst h))"
  using accumulate_subsets_result[of self h f inst "int (length inst)"
      "get_all_other_feature_subsets (int (length inst)) f" "Fin 0"]
  by (simp add: compute_single_shapley_value_def single_value_def Let_def)

lemma fill_row_result:
  "background_dataset self < fresh h \<Longrightarrow>
     fst (fill_row self X i js out h) =
       fill_row_value (model self) (objs h (background_dataset self)) X i js out
     \<and> frame h (snd (fill_row self X i js out h))"
proof (induction js arbitrary: out h)
  case Nil
  show ?case by (simp add: frame_refl)
next
  case (Cons j js)
  define b where "b = background_dataset self"
  define r1 where "r1 = compute_single_shapley_value self (int j) (arr_rows X ! i) h"
  define h1 where "h1 = snd r1"
  have c: "fst r1 = single_value (model self) (objs h b) (int j) (arr_rows X ! i)" "frame h h1"
    using compute_single_shapley_value_result[OF Cons.prems, of "int j" "arr_rows X ! i"]
    by (simp_all add: r1_def h1_def b_def)
  have b1: "objs h1 b = objs h b" "b < fresh h1"
    using frame_background[OF c(2), of b] Cons.prems by (simp_all add: b_def)
  have IH: "\<And>out'. fst (fill_row self X i js out' h1) =
                fill_row_value (model self) (objs h b) X i js out'
              \<and> frame h1 (snd (fill_row self X i js out' h1))"
    using Cons.IH[of h1] b1 by (simp add: b_def)
  have unf: "fill_row self X i (j # js) out h =
     (case r1 of (Inl e, k1) \<Rightarrow> (Inl e, k1)
      | (Inr v, k1) \<Rightarrow> (case setitem_cell out i j v of Inl e \<Rightarrow> (Inl e, k1)
                        | Inr out1 \<Rightarrow> fill_row self X i js out1 k1))"
    by (simp add: r1_def)
  show ?case
  proof (cases r1)
    case (Pair a1 k1)
    then have k1: "k1 = h1" by (simp add: h1_def)
    have sv: "single_value (model self) (objs h b) (int j) (arr_rows X ! i) = a1"
      using c(1) Pair by simp
    show ?thesis
    proof (cases a1)
      case (Inl e)
      then show ?thesis using Pair k1 c(2) sv unf by (simp add: b_def)
    next
      case v: (Inr v)
      show ?thesis
      proof (cases "setitem_cell out i j v")
        case (Inl e)
        then show ?thesis using Pair k1 v c(2) sv unf by (simp add: b_def)
      next
        case (Inr out1)
        then show ?thesis using Pair k1 v c(2) sv unf IH[of out1]
          by (auto simp add: b_def intro: frame_trans)
      qed
    qed
  qed
qed

lemma fill_rows_result:
  "background_dataset self < fresh h \<Longrightarrow>
     fst (fill_rows self X is n out h) =
       fill_rows_value (model self) (objs h (background_dataset self)) X is n out
     \<and> frame h (snd (fill_rows self X is n out h))"
proof (induction "is" arbitrary: out h)
  case Nil
  show ?case by (simp add: frame_refl)
next
  case (Cons i "is")
  define b where "b = background_dataset self"
  define r1 where "r1 = fill_row self X i [0 ..< n] out h"
  define h1 where "h1 = snd r1"
  have c: "fst r1 = fill_row_value (model self) (objs h b) X i [0 ..< n] out" "frame h h1"
    using fill_row_result[OF Cons.prems, of X i "[0 ..< n]" out]
    by (simp_all add: r1_def h1_def b_def)
  have b1: "objs h1 b = objs h b" "b < fresh h1"
    using frame_background[OF c(2), of b] Cons.prems by (simp_all add: b_def)
  have IH: "\<And>out'. fst (fill_rows self X is n out' h1) =
                fill_rows_value (model self) (objs h b) X is n out'
              \<and> frame h1 (snd (fill_rows self X is n out' h1))"
    using Cons.IH[of h1] b1 by (simp add: b_def)
  have unf: "fill_rows self X (i # is) n out h =
     (case r1 of (Inl e, k1) \<Rightarrow> (Inl e, k1)
      | (Inr out1, k1) \<Rightarrow> fill_rows self X is n out1 k1)"
    by (simp add: r1_def)
  show ?case
  proof (cases r1)
    case (Pair a1 k1)
    then have k1: "k1 = h1" by (simp add: h1_def)
    have sv: "fill_row_value (model self) (objs h b) X i [0 ..< n] out = a1"
      using c(1) Pair by simp
    show ?thesis
    proof (cases a1)
      case (Inl e)
      then show ?thesis using Pair k1 c(2) sv unf by (simp add: b_def)
    next
      case (Inr out1)
      then show ?thesis using Pair k1 c(2) sv unf IH[of out1]
        by (auto simp add: b_def intro: frame_trans)
    qed
  qed
qed

lemma shapley_values_result:
  "background_dataset self < fresh h \<Longrightarrow>
     fst (shapley_values self X h) = shapley_matrix (model self) (objs h (background_dataset self)) X
     \<and> frame h (snd (shapley_values self X h))"
  using fill_rows_result[of self h X "[0 ..< length (arr_rows X)]" "arr_ncols X" "zeros_like X"]
  by (simp add: shapley_values_def shapley_matrix_def Let_def)

section \<open>Enumerator lemmas\<close>

lemma combinations_filter:
  "combinations xs r = filter (\<lambda>ys. length ys = r) (subseqs xs)"
proof (induction xs r rule: combinations.induct)
  case (1 xs)
  show ?case by (induction xs) (auto simp: Let_def filter_map comp_def)
next
  case (2 r)
  show ?case by simp
next
  case (3 x xs r)
  then show ?case by (simp add: Let_def filter_map comp_def)
qed

lemma length_combinations: "length (combinations xs r) = length xs choose r"
  by (induction xs r rule: combinations.induct) simp_all

lemma length_get_all_subsets: "length (get_all_subsets xs) = 2 ^ length xs"
proof -
  have "length (get_all_subsets xs) = (\<Sum>r\<leftarrow>[0 ..< length xs + 1]. length xs choose r)"
    by (simp add: get_all_subsets_def length_concat comp_def length_combinations)
  also have "\<dots> = sum (\<lambda>r. length xs choose r) (set [0 ..< length xs + 1])"
    by (rule interv_sum_list_conv_sum_set_nat)
  also have "set [0 ..< length xs + 1] = {.. length xs}"
    by auto
  finally have "length (get_all_subsets xs) = (\<Sum>r\<le>length xs. length xs choose r)" .
  also
  have "\<dots> = 2 ^ length xs" by (rule choose_row_sum)
  finally show ?thesis .
qed

lemma set_concat_filter:
  "set (concat (map (\<lambda>r. filter (\<lambda>y. g y = r) zs) rs)) = {y \<in> set zs. g y \<in> set rs}"
  by (induction rs) auto

lemma distinct_concat_filter:
  "distinct zs \<Longrightarrow> distinct rs \<Longrightarrow> distinct (concat (map (\<lambda>r. filter (\<lambda>y. g y = r) zs) rs))"
  by (induction rs) (auto simp: set_concat_filter)

lemma get_all_subsets_filter:
  "get_all_subsets xs = concat (map (\<lambda>r. filter (\<lambda>ys. length ys = r) (subseqs xs)) [0 ..< length xs + 1])"
proof -
  have "combinations xs = (\<lambda>r. filter (\<lambda>ys. length ys = r) (subseqs xs))"
    by (rule ext) (rule combinations_filter)
  then show ?thesis by (simp only: get_all_subsets_def)
qed

lemma length_subseqs_le: "ys \<in> set (subseqs xs) \<Longrightarrow> length ys \<le> length xs"
  by (induction xs arbitrary: ys) (auto simp: Let_def intro: le_SucI)

lemma set_get_all_subsets: "set (get_all_subsets xs) = set (subseqs xs)"
proof -
  have "set (get_all_subsets xs) = {ys \<in> set (subseqs xs). length ys \<in> set [0 ..< length xs + 1]}"
    unfolding get_all_subsets_filter by (rule set_concat_filter)
  also have "\<dots> = set (subseqs xs)"
    using length_subseqs_le[of _ xs] by (auto simp: less_Suc_eq_le simp del: upt_Suc)
  finally show ?thesis .
qed

lemma distinct_subseqs_list: "distinct xs \<Longrightarrow> distinct (subseqs xs)"
  using distinct_set_subseqs[of xs] by (simp add: distinct_map)

lemma distinct_get_all_subsets: "distinct xs \<Longrightarrow> distinct (get_all_subsets xs)"
  unfolding get_all_subsets_filter
  by (rule distinct_concat_filter) (simp_all add: distinct_subseqs_list)

lemma distinct_sets_get_all_subsets:
  assumes "distinct xs"
  shows "distinct (map set (get_all_subsets xs))"
proof -
  have "inj_on set (set (subseqs xs))"
    using distinct_set_subseqs[OF assms] by (simp add: distinct_map)
  then show ?thesis
    using distinct_get_all_subsets[OF assms] by (simp add: distinct_map set_get_all_subsets)
qed

lemma set_other_features:
  "set (filter (\<lambda>i. i \<noteq> f) (range_py M)) = {0 .. M - 1} - {f}"
  by (auto simp: range_py_def)

lemma distinct_other_features: "distinct (filter (\<lambda>i. i \<noteq> f) (range_py M))"
  by (simp add: range_py_def)

lemma length_other_features:
  assumes "0 \<le> f" "f < M"
  shows "length (filter (\<lambda>i. i \<noteq> f) (range_py M)) = nat (M - 1)"
proof -
  have "card (set (filter (\<lambda>i. i \<noteq> f) (range_py M))) = length (filter (\<lambda>i. i \<noteq> f) (range_py M))"
    by (rule distinct_card[OF distinct_other_features])
  then have "length (filter (\<lambda>i. i \<noteq> f) (range_py M)) = card ({0 .. M - 1} - {f})"
    by (simp only: set_other_features)
  also have "\<dots> = card {0 .. M - 1} - 1" using assms by simp
  also have "\<dots> = nat (M - 1)" using assms by simp
  finally show ?thesis .
qed

section \<open>Weight lemmas\<close>

lemma round_half_even_error: "\<bar>of_int (round_half_even x) - x\<bar> \<le> 1 / 2"
proof -
  have "of_int \<lfloor>x\<rfloor> \<le> x" "x < of_int \<lfloor>x\<rfloor> + 1" by linarith+
  then show ?thesis
    by (auto simp: round_half_even_def Let_def)
qed

lemma round_half_even_zero: "0 \<le> x \<Longrightarrow> x \<le> 1 / 2 \<Longrightarrow> round_half_even x = 0"
proof -
  assume a: "0 \<le> x" "x \<le> 1 / 2"
  then have f: "\<lfloor>x\<rfloor> = 0" by (simp add: floor_eq_iff)
  show ?thesis using a by (simp add: round_half_even_def f)
qed

lemma round_half_even_pos: "1 / 2 < x \<Longrightarrow> 1 \<le> round_half_even x"
proof -
  assume a: "1 / 2 < x"
  have b: "\<bar>of_int (round_half_even x) - x\<bar> \<le> 1 / 2" by (rule round_half_even_error)
  then have "(0::rat) < of_int (round_half_even x)" using a by linarith
  then show ?thesis by simp
qed

lemma round_half_even_nonneg: "0 \<le> x \<Longrightarrow> 0 \<le> round_half_even x"
proof -
  assume "0 \<le> x"
  then have "0 \<le> \<lfloor>x\<rfloor>" by simp
  then show ?thesis by (simp add: round_half_even_def Let_def)
qed

lemma two_powi_le_exp:
  assumes "(2::rat) powi m \<le> 2 powi n"
  shows "m \<le> n"
proof (rule ccontr)
  assume "\<not> m \<le> n"
  then have "n < m" by simp
  then have "(2::rat) powi n < 2 powi m" by (rule power_int_strict_increasing) simp
  with assms show False by simp
qed

lemma bitlen_powi_bounds:
  assumes "0 < a"
  shows "(2::rat) powi (bitlen a - 1) \<le> of_int a" "(of_int a :: rat) < 2 powi (bitlen a)"
proof -
  from bitlen_bounds[OF assms] have lo: "2 ^ nat (bitlen a - 1) \<le> a" and hi: "a < 2 ^ nat (bitlen a)"
    by simp_all
  have l1: "1 \<le> bitlen a" using assms bitlen_eq_zero_iff[of a] bitlen_nonneg[of a] by linarith
  have "(of_int (2 ^ nat (bitlen a - 1)) :: rat) \<le> of_int a" using lo by (simp only: of_int_le_iff)
  then show "(2::rat) powi (bitlen a - 1) \<le> of_int a"
    using l1 by (simp add: power_int_def)
  have "(of_int a :: rat) < of_int (2 ^ nat (bitlen a))" using hi by (simp only: of_int_less_iff)
  then show "(of_int a :: rat) < 2 powi (bitlen a)"
    using l1 by (simp add: power_int_def)
qed

lemma binary_exponent_bounds:
  assumes "0 < a" "0 < b"
  shows "(2::rat) powi (binary_exponent a b) \<le> of_int a / of_int b"
    and "(of_int a / of_int b :: rat) < 2 powi (binary_exponent a b + 1)"
proof -
  define d where "d = bitlen a - bitlen b"
  define q :: rat where "q = of_int a / of_int b"
  have bp: "(0::rat) < of_int b" using assms by simp
  note A = bitlen_powi_bounds[OF assms(1)]
  note B = bitlen_powi_bounds[OF assms(2)]
  have "(2::rat) powi (d - 1) = 2 powi (bitlen a - 1) / 2 powi (bitlen b)"
    unfolding d_def using power_int_diff[of "2::rat" "bitlen a - 1" "bitlen b"] by (simp add: algebra_simps)
  also have "\<dots> \<le> of_int a / 2 powi (bitlen b)"
    using A(1) by (simp add: divide_right_mono)
  also have "\<dots> \<le> of_int a / of_int b"
    using B(2) bp assms(1) by (simp add: frac_le)
  finally have lo: "(2::rat) powi (d - 1) \<le> q" by (simp add: q_def)
  have b1: "(0::rat) < 2 powi (bitlen b - 1)" by simp
  have "q < 2 powi (bitlen a) / of_int b"
    unfolding q_def using A(2) bp by (simp add: divide_strict_right_mono)
  also have "\<dots> \<le> 2 powi (bitlen a) / 2 powi (bitlen b - 1)"
    using B(1) b1 by (simp add: frac_le)
  also have "\<dots> = 2 powi (d + 1)"
    unfolding d_def using power_int_diff[of "2::rat" "bitlen a" "bitlen b - 1"] by (simp add: algebra_simps)
  finally have hi: "q < 2 powi (d + 1)" .
  have e: "binary_exponent a b = (if 2 powi d \<le> q then d else d - 1)"
    by (simp add: binary_exponent_def d_def q_def Let_def)
  show "(2::rat) powi (binary_exponent a b) \<le> of_int a / of_int b"
    using lo by (simp add: e q_def[symmetric])
  show "(of_int a / of_int b :: rat) < 2 powi (binary_exponent a b + 1)"
    using hi by (simp add: e q_def[symmetric])
qed

lemma true_divide_fraction:
  assumes "0 < a" "0 < b" "a \<le> b"
  shows "\<exists>r. true_divide a b = Inr r \<and> 0 \<le> r
            \<and> (0 < r \<longleftrightarrow> 2 powi (- 1075) < (of_int a / of_int b :: rat))
            \<and> (2 powi (- 1022) \<le> (of_int a / of_int b :: rat)
                  \<longrightarrow> \<bar>r - of_int a / of_int b\<bar> \<le> (of_int a / of_int b) / 2 ^ 53)"
proof -
  define q :: rat where "q = of_int a / of_int b"
  define e where "e = binary_exponent a b"
  define p where "p = max (e - 52) (- 1074)"
  define x where "x = q / 2 powi p"
  define n where "n = round_half_even x"
  define r :: rat where "r = of_int n * 2 powi p"
  have qpos: "0 < q" using assms by (simp add: q_def)
  have q1: "q \<le> 1" using assms by (simp add: q_def)
  have elo: "2 powi e \<le> q" unfolding e_def q_def by (rule binary_exponent_bounds(1)[OF assms(1,2)])
  have "(2::rat) powi e \<le> 2 powi 0" using elo q1 by simp
  then have e0: "e \<le> 0" by (rule two_powi_le_exp)
  have p52: "p \<le> - 52" and p1074: "- 1074 \<le> p" using e0 by (simp_all add: p_def)
  have Ppos: "(0::rat) < 2 powi p" by simp
  have xq: "x * 2 powi p = q" using Ppos by (simp add: x_def)
  have xnn: "0 \<le> x" using qpos Ppos by (simp add: x_def)
  have nnn: "0 \<le> n" unfolding n_def using xnn by (rule round_half_even_nonneg)
  have rnn: "0 \<le> r" using nnn by (simp add: r_def)
  have "r - q = (of_int n - x) * 2 powi p" using xq by (simp add: r_def algebra_simps)
  then have "\<bar>r - q\<bar> = \<bar>of_int n - x\<bar> * 2 powi p" by (simp add: abs_mult)
  also have "\<dots> \<le> (1 / 2) * 2 powi p"
    using round_half_even_error[of x] Ppos by (simp add: n_def mult_right_mono)
  finally have err: "\<bar>r - q\<bar> \<le> 2 powi p / 2" by simp
  have "(2::rat) powi p \<le> 2 powi 0" using p52 by (intro power_int_increasing) simp_all
  then have P1: "(2::rat) powi p \<le> 1" by simp
  have "r \<le> q + 2 powi p / 2" using err by linarith
  then have "r \<le> 2" using q1 P1 by linarith
  then have small: "\<not> 2 ^ 1024 \<le> \<bar>r\<bar>" using rnn by simp
  have td: "true_divide a b = Inr r"
    using assms small
    by (simp add: true_divide_def Let_def r_def n_def x_def p_def e_def q_def)
  have pos: "0 < r \<longleftrightarrow> 2 powi (- 1075) < q"
  proof
    assume g: "2 powi (- 1075) < q"
    have "1 / 2 < x"
    proof (cases "e - 52 \<le> - 1074")
      case True
      then have p: "p = - 1074" by (simp add: p_def)
      have "(2::rat) powi (- 1075) / 2 powi (- 1074) = 2 powi (- 1075 - (- 1074))"
        by (rule power_int_diff[symmetric]) simp
      then have h: "(2::rat) powi (- 1075) / 2 powi (- 1074) = 1 / 2" by simp
      have "2 powi (- 1075) / 2 powi (- 1074) < q / 2 powi (- 1074)"
        using g by (intro divide_strict_right_mono) simp_all
      then show ?thesis using h by (simp only: x_def p)
    next
      case False
      then have p: "p = e - 52" by (simp add: p_def)
      have "(2::rat) powi e / 2 powi (e - 52) = 2 powi (e - (e - 52))"
        by (rule power_int_diff[symmetric]) simp
      then have h: "(2::rat) powi e / 2 powi (e - 52) = 2 ^ 52" by simp
      have "2 powi e / 2 powi (e - 52) \<le> q / 2 powi (e - 52)"
        using elo by (intro divide_right_mono) simp_all
      then have "2 ^ 52 \<le> x" using h by (simp only: x_def p)
      then show ?thesis by simp
    qed
    then have "1 \<le> n" unfolding n_def by (rule round_half_even_pos)
    then show "0 < r" using Ppos by (simp add: r_def)
  next
    assume rp: "0 < r"
    show "2 powi (- 1075) < q"
    proof (rule ccontr)
      assume "\<not> 2 powi (- 1075) < q"
      then have le: "q \<le> 2 powi (- 1075)" by simp
      then have "(2::rat) powi e \<le> 2 powi (- 1075)" using elo by simp
      then have "e \<le> - 1075" by (rule two_powi_le_exp)
      then have p: "p = - 1074" by (simp add: p_def)
      have "(2::rat) powi (- 1075) / 2 powi (- 1074) = 2 powi (- 1075 - (- 1074))"
        by (rule power_int_diff[symmetric]) simp
      then have h: "(2::rat) powi (- 1075) / 2 powi (- 1074) = 1 / 2" by simp
      have "q / 2 powi (- 1074) \<le> 2 powi (- 1075) / 2 powi (- 1074)"
        using le by (intro divide_right_mono) simp_all
      then have "x \<le> 1 / 2" using h by (simp only: x_def p)
      then have "n = 0" unfolding n_def using xnn by (intro round_half_even_zero)
      then show False using rp by (simp add: r_def)
    qed
  qed
  have rel: "\<bar>r - q\<bar> \<le> q / 2 ^ 53" if g: "2 powi (- 1022) \<le> q"
  proof -
    have "(2::rat) powi (p + 52) \<le> q"
    proof (cases "e - 52 \<le> - 1074")
      case True
      then have "p + 52 = - 1022" by (simp add: p_def)
      then have "(2::rat) powi (p + 52) = 2 powi (- 1022)" by (simp only:)
      then show ?thesis using g by (simp only:)
    next
      case False
      then have "p + 52 = e" by (simp add: p_def)
      then show ?thesis using elo by simp
    qed
    moreover have "(2::rat) powi (p + 52) = 2 powi p * 2 powi 52"
      by (rule power_int_add) simp
    ultimately have "2 powi p * 2 ^ 52 \<le> q" by simp
    then have "2 powi p / 2 \<le> q / 2 ^ 53" by (simp add: field_simps)
    with err show ?thesis by linarith
  qed
  show ?thesis
    using td rnn pos rel unfolding q_def by blast
qed

lemma permutation_factor_in_range:
  assumes "0 \<le> s" "s \<le> M - 1"
  shows "permutation_factor M s = true_divide (fact (nat s) * fact (nat (M - s - 1))) (fact (nat M))"
  using assms by (simp add: permutation_factor_def factorial_def)

lemma exact_weight_binomial:
  assumes "0 \<le> s" "s \<le> M - 1"
  shows "of_nat (nat (M - 1) choose nat s) * exact_weight M s = 1 / of_int M"
    and "exact_weight M s = 1 / (of_int M * of_nat (nat (M - 1) choose nat s))"
proof -
  define n where "n = nat (M - 1)"
  define k where "k = nat s"
  have kn: "k \<le> n" using assms by (simp add: n_def k_def)
  have a: "nat (M - s - 1) = n - k" using assms by (simp add: n_def k_def)
  have b: "nat M = Suc n" using assms by (simp add: n_def)
  have M: "(of_int M :: rat) = of_nat (Suc n)" using assms by (simp add: n_def)
  have nz: "(fact k * fact (n - k) :: rat) \<noteq> 0" "(fact n :: rat) \<noteq> 0"
    by (simp_all del: fact_Suc)
  have c: "(of_nat (n choose k) :: rat) = fact n / (fact k * fact (n - k))"
    using kn by (rule binomial_fact)
  have cpos: "(0::rat) < of_nat (n choose k)" using kn by simp
  have "of_nat (n choose k) * (fact k * fact (n - k) / fact (Suc n) :: rat) = fact n / fact (Suc n)"
    using nz c by (simp del: fact_Suc)
  also have "\<dots> = 1 / of_nat (Suc n)"
    using nz by (simp del: of_nat_Suc)
  finally have e: "of_nat (n choose k) * exact_weight M s = 1 / of_nat (Suc n)"
    by (simp only: exact_weight_def a b k_def[symmetric])
  show "of_nat (nat (M - 1) choose nat s) * exact_weight M s = 1 / of_int M"
    using e by (simp only: M n_def[symmetric] k_def[symmetric])
  have "exact_weight M s = 1 / (of_nat (Suc n) * of_nat (n choose k))"
    using e cpos by (simp add: field_simps del: of_nat_Suc)
  then show "exact_weight M s = 1 / (of_int M * of_nat (nat (M - 1) choose nat s))"
    by (simp only: M n_def[symmetric] k_def[symmetric])
qed

lemma exact_weight_lower:
  assumes "0 \<le> s" "s \<le> M - 1"
  shows "1 / (of_int M * 2 ^ nat (M - 1)) \<le> exact_weight M s"
proof -
  have Mpos: "(0::rat) < of_int M" using assms by simp
  have cpos: "(0::rat) < of_nat (nat (M - 1) choose nat s)" using assms by simp
  have "nat (M - 1) choose nat s \<le> 2 ^ nat (M - 1)" by (rule binomial_le_pow2)
  then have "(of_nat (nat (M - 1) choose nat s) :: rat) \<le> of_nat (2 ^ nat (M - 1))"
    by (simp only: of_nat_le_iff)
  then have "(of_nat (nat (M - 1) choose nat s) :: rat) \<le> 2 ^ nat (M - 1)" by simp
  then have "of_int M * of_nat (nat (M - 1) choose nat s) \<le> (of_int M * 2 ^ nat (M - 1) :: rat)"
    using Mpos by (simp add: mult_left_mono)
  moreover have "(0::rat) < of_int M * of_nat (nat (M - 1) choose nat s)" using Mpos cpos by simp
  ultimately have "1 / (of_int M * 2 ^ nat (M - 1)) \<le> 1 / (of_int M * of_nat (nat (M - 1) choose nat s) :: rat)"
    by (intro divide_left_mono) simp_all
  then show ?thesis by (simp only: exact_weight_binomial(2)[OF assms])
qed

lemma exact_weight_lower_powi:
  assumes "0 \<le> s" "s \<le> M - 1" "M \<le> K" "K \<le> 2048"
  shows "2 powi (- (K + 10)) \<le> exact_weight M s"
proof -
  have M1: "1 \<le> M" using assms by simp
  have Mpos: "(0::rat) < of_int M" using M1 by simp
  have "(of_int M :: rat) \<le> of_int 2048" using assms by (simp only: of_int_le_iff)
  then have a: "(of_int M :: rat) \<le> 2 powi 11" by simp
  have "(2::rat) ^ nat (M - 1) = 2 powi (M - 1)" using M1 by (simp add: power_int_def)
  also have "\<dots> \<le> 2 powi (K - 1)" using assms by (intro power_int_increasing) simp_all
  finally have b: "(2::rat) ^ nat (M - 1) \<le> 2 powi (K - 1)" .
  have "of_int M * 2 ^ nat (M - 1) \<le> (2 powi 11 * 2 powi (K - 1) :: rat)"
    using a b Mpos by (intro mult_mono) simp_all
  also have "(2 powi 11 * 2 powi (K - 1) :: rat) = 2 powi (11 + (K - 1))"
    by (rule power_int_add[symmetric]) simp
  also have "11 + (K - 1) = K + 10" by simp
  finally have c: "of_int M * 2 ^ nat (M - 1) \<le> (2 powi (K + 10) :: rat)" .
  have d: "(0::rat) < of_int M * 2 ^ nat (M - 1)" using Mpos by simp
  have "(2::rat) powi (- (K + 10)) = 1 / 2 powi (K + 10)"
    by (simp only: power_int_minus inverse_eq_divide)
  also have "\<dots> \<le> 1 / (of_int M * 2 ^ nat (M - 1))"
    using c d by (intro divide_left_mono) simp_all
  also have "\<dots> \<le> exact_weight M s" by (rule exact_weight_lower[OF assms(1,2)])
  finally show ?thesis .
qed

lemma permutation_factor_rounded:
  assumes "0 \<le> s" "s \<le> M - 1"
  shows "\<exists>w. permutation_factor M s = Inr w \<and> 0 \<le> w
            \<and> (0 < w \<longleftrightarrow> 2 powi (- 1075) < exact_weight M s)
            \<and> (2 powi (- 1022) \<le> exact_weight M s
                  \<longrightarrow> \<bar>w - exact_weight M s\<bar> \<le> exact_weight M s / 2 ^ 53)"
proof -
  define a :: int where "a = fact (nat s) * fact (nat (M - s - 1))"
  define b :: int where "b = fact (nat M)"
  have apos: "0 < a" by (simp add: a_def del: fact_Suc)
  have bpos: "0 < b" by (simp add: b_def del: fact_Suc)
  have q: "(of_int a / of_int b :: rat) = exact_weight M s"
    by (simp add: a_def b_def exact_weight_def del: fact_Suc)
  have "exact_weight M s \<le> 1"
  proof -
    have "(1::rat) \<le> of_int M * of_nat (nat (M - 1) choose nat s)"
    proof -
      have "(1::nat) \<le> nat M * (nat (M - 1) choose nat s)" using assms by (simp add: Suc_le_eq)
      then have "(of_nat 1 :: rat) \<le> of_nat (nat M * (nat (M - 1) choose nat s))"
        by (simp only: of_nat_le_iff)
      then show ?thesis using assms by simp
    qed
    then show ?thesis by (simp add: exact_weight_binomial(2)[OF assms])
  qed
  then have "(of_int a :: rat) \<le> of_int b" using bpos by (simp add: q[symmetric])
  then have ab: "a \<le> b" by (simp only: of_int_le_iff)
  show ?thesis
    using true_divide_fraction[OF apos bpos ab]
    by (simp only: q permutation_factor_in_range[OF assms] a_def[symmetric] b_def[symmetric])
qed

lemma central_binomial_lower: "4 ^ n \<le> (2 * n + 1) * ((2 * n) choose n)"
proof -
  have "(4::nat) ^ n = 2 ^ (2 * n)" by (simp add: power_mult)
  also have "\<dots> = (\<Sum>k\<le>2 * n. (2 * n) choose k)" by (rule choose_row_sum[symmetric])
  also have "\<dots> \<le> (\<Sum>k\<le>2 * n. (2 * n) choose n)"
    by (intro sum_mono binomial_maximum')
  also have "\<dots> = (2 * n + 1) * ((2 * n) choose n)" by simp
  finally show ?thesis .
qed

lemma central_weight_underflow:
  assumes "538 \<le> n"
  shows "permutation_factor (2 * int n + 1) (int n) = Inr 0"
proof -
  define M where "M = 2 * int n + 1"
  define s where "s = int n"
  have r: "0 \<le> s" "s \<le> M - 1" by (simp_all add: M_def s_def)
  have n1: "nat (M - 1) = 2 * n" "nat s = n" by (simp_all add: M_def s_def)
  have M2: "(of_int M :: rat) = of_nat (2 * n + 1)" by (simp add: M_def)
  have "(of_nat (4 ^ n) :: rat) \<le> of_nat ((2 * n + 1) * ((2 * n) choose n))"
    using central_binomial_lower[of n] by (simp only: of_nat_le_iff)
  then have big: "(4::rat) ^ n \<le> of_int M * of_nat (nat (M - 1) choose nat s)"
    by (simp add: M2 n1 algebra_simps)
  have "exact_weight M s = 1 / (of_int M * of_nat (nat (M - 1) choose nat s))"
    by (rule exact_weight_binomial(2)[OF r])
  also have "\<dots> \<le> 1 / 4 ^ n"
    using big by (intro frac_le) simp_all
  also have "(1::rat) / 4 ^ n = 2 powi (- (2 * int n))"
  proof -
    have "(4::rat) ^ n = 2 powi (2 * int n)"
      by (simp add: power_int_def power_mult nat_mult_distrib)
    then show ?thesis by (simp only: power_int_minus inverse_eq_divide)
  qed
  also have "\<dots> \<le> 2 powi (- 1075)"
    using assms by (intro power_int_increasing) simp_all
  finally have small: "\<not> 2 powi (- 1075) < exact_weight M s" by simp
  from permutation_factor_rounded[OF r] obtain w where
    w: "permutation_factor M s = Inr w" "0 \<le> w" "0 < w \<longleftrightarrow> 2 powi (- 1075) < exact_weight M s"
    by blast
  from w(2,3) small have "w = 0" by simp
  then show ?thesis using w(1) by (simp only: M_def s_def)
qed

section \<open>Output array lemmas\<close>






section \<open>Evaluation at the concrete inputs\<close>

lemma upto_small:
  "[0 .. (-1::int)] = []" "[0 .. (0::int)] = [0]" "[0 .. (1::int)] = [0, 1]"
  by (simp_all add: upto.simps)

lemma heap_with_background:
  "objs (heap_with bg) 0 = bg" "(0::nat) < fresh (heap_with bg)"
  by (simp_all add: heap_with_def)

lemma other_subsets_small:
  "get_all_other_feature_subsets 1 0 = [[]]"
  "get_all_other_feature_subsets 2 0 = [[], [1]]"
  "get_all_other_feature_subsets 2 1 = [[], [0]]"
  by (simp_all add: get_all_other_feature_subsets_def range_py_def upto_small get_all_subsets_def
        upt_rec eval_nat_numeral)

lemma permutation_factor_small:
  "permutation_factor 1 0 = Inr 1"
  "permutation_factor 2 0 = Inr (1 / 2)"
  "permutation_factor 2 1 = Inr (1 / 2)"
  by code_simp+

lemma synthetic_2x2:
  "synthetic_dataset background_2x2 [] [4, 6] = Inr background_2x2"
  "synthetic_dataset background_2x2 [0] [4, 6] = Inr (background_2x2\<lparr>arr_rows := [[4, 0], [4, 2]]\<rparr>)"
  "synthetic_dataset background_2x2 [1] [4, 6] = Inr background_2x2"
  "synthetic_dataset background_2x2 [1, 0] [4, 6] = Inr (background_2x2\<lparr>arr_rows := [[4, 0], [4, 2]]\<rparr>)"
  "synthetic_dataset background_2x2 [0, 1] [4, 6] = Inr (background_2x2\<lparr>arr_rows := [[4, 0], [4, 2]]\<rparr>)"
  by (simp_all add: synthetic_dataset_def background_2x2_def upto_small getitem_def py_index_def
        setitem_column_def cast_cell_def)

lemma approximation_2x2:
  "approximation_value linear_model background_2x2 [] [4, 6] = Inr (Fin 5)"
  "approximation_value linear_model background_2x2 [0] [4, 6] = Inr (Fin 11)"
  "approximation_value linear_model background_2x2 [1] [4, 6] = Inr (Fin 5)"
  "approximation_value linear_model background_2x2 [1, 0] [4, 6] = Inr (Fin 11)"
  "approximation_value linear_model background_2x2 [0, 1] [4, 6] = Inr (Fin 11)"
  by (simp_all add: approximation_value_def synthetic_2x2)
     (simp_all add: background_2x2_def linear_model_def np_mean_def)

lemma single_value_2x2:
  "single_value linear_model background_2x2 0 [4, 6] = Inr (Fin 6)"
  "single_value linear_model background_2x2 1 [4, 6] = Inr (Fin 0)"
  by (simp_all add: single_value_def other_subsets_small approximation_2x2 permutation_factor_small)

lemma shapley_matrix_2x2:
  "shapley_matrix linear_model background_2x2 X_4_6 =
     Inr \<lparr>arr_dtype = Float64, arr_ncols = 2, arr_rows = [[Fin 6, Fin 0]]\<rparr>"
  using single_value_2x2
  by (simp add: shapley_matrix_def X_4_6_def zeros_like_def upt_rec setitem_cell_def store_float_def
        eval_nat_numeral)

lemma spec_synthetic_2x2:
  "spec_synthetic_dataset background_2x2 [1] [4, 6] = background_2x2\<lparr>arr_rows := [[0, 6], [2, 6]]\<rparr>"
  by (simp add: spec_synthetic_dataset_def background_2x2_def upt_rec eval_nat_numeral)

lemma synthetic_1x1:
  "synthetic_dataset background_1x1 S [1] = Inr background_1x1"
  by (simp add: synthetic_dataset_def background_1x1_def upto_small)

lemma approximation_1x1:
  "approximation_value first_feature_model background_1x1 S [1] = Inr (Fin 0)"
  by (simp add: approximation_value_def synthetic_1x1)
     (simp add: background_1x1_def first_feature_model_def np_mean_def)

lemma single_value_1x1:
  "single_value first_feature_model background_1x1 0 [1] = Inr (Fin 0)"
  by (simp add: single_value_def other_subsets_small approximation_1x1 permutation_factor_small)

lemma shapley_matrix_1x1:
  "shapley_matrix first_feature_model background_1x1 X_1 =
     Inr \<lparr>arr_dtype = Float64, arr_ncols = 1, arr_rows = [[Fin 0]]\<rparr>"
  using single_value_1x1
  by (simp add: shapley_matrix_def X_1_def zeros_like_def upt_rec setitem_cell_def store_float_def)






section \<open>The claims\<close>

text \<open>
  C1. \<open>_subset_model_approximation\<close> is claimed to overwrite exactly the columns of the
  coalition with the instance's values and to return the mean prediction on that synthetic
  dataset. The loop runs over \<open>range(0, len(dataset) - 1)\<close>, where \<open>len(dataset)\<close> is the
  number of rows: with the two-row background \<open>[[0, 0], [2, 2]]\<close>, the coalition \<open>(1,)\<close>, the
  instance \<open>[4, 6]\<close> and the model \<open>2 * x0 + 3 * x1\<close>, column 1 is never visited. The code
  returns 5, the mean over the unmodified background; the mean over the dataset the
  specification describes, \<open>[[0, 6], [2, 6]]\<close>, is 20.
\<close>

theorem subset_model_approximation_leaves_coalition_column:
  "fst (subset_model_approximation explainer_linear [1] [4, 6] (heap_with background_2x2)) = Inr (Fin 5)
   \<and> np_mean (linear_model (spec_synthetic_dataset background_2x2 [1] [4, 6])) = Fin 20"
proof
  show "fst (subset_model_approximation explainer_linear [1] [4, 6] (heap_with background_2x2)) = Inr (Fin 5)"
    using subset_model_approximation_result[of explainer_linear "[1]" "[4, 6]" "heap_with background_2x2"]
    by (simp add: explainer_linear_def heap_with_background approximation_2x2)
  show "np_mean (linear_model (spec_synthetic_dataset background_2x2 [1] [4, 6])) = Fin 20"
    by (simp add: spec_synthetic_2x2) (simp add: background_2x2_def linear_model_def np_mean_def)
qed

text \<open>
  C2. The Shapley values of an instance are claimed to sum to the model's prediction on the
  instance minus the mean prediction over the background dataset. With the one-row background
  \<open>[[0]]\<close>, the model \<open>f(x0) = x0\<close> and the instance \<open>[1]\<close>, the loop of
  \<open>_subset_model_approximation\<close> runs over \<open>range(0, 0)\<close> and overwrites nothing, so the single
  Shapley value is 0, while the prediction on the instance minus the mean background prediction
  is 1.
\<close>

theorem shapley_values_sum_single_row_background:
  "fst (shapley_values explainer_first X_1 (heap_with background_1x1)) =
     Inr \<lparr>arr_dtype = Float64, arr_ncols = 1, arr_rows = [[Fin 0]]\<rparr>
   \<and> fsub (np_mean (first_feature_model X_1)) (np_mean (first_feature_model background_1x1)) = Fin 1"
proof
  show "fst (shapley_values explainer_first X_1 (heap_with background_1x1)) =
     Inr \<lparr>arr_dtype = Float64, arr_ncols = 1, arr_rows = [[Fin 0]]\<rparr>"
    using shapley_values_result[of explainer_first "heap_with background_1x1" X_1]
    by (simp add: explainer_first_def heap_with_background shapley_matrix_1x1)
  show "fsub (np_mean (first_feature_model X_1)) (np_mean (first_feature_model background_1x1)) = Fin 1"
    by (simp add: X_1_def background_1x1_def first_feature_model_def np_mean_def)
qed

text \<open>
  C3. For the model \<open>2 * x0 + 3 * x1\<close>, the background \<open>[[0, 0], [2, 2]]\<close> and the instance
  \<open>[4, 6]\<close>, \<open>shapley_values\<close> is claimed to return 6 for feature 0 and 15 for feature 1. The
  background has two rows, so the overwrite loop visits column 0 only: the code returns 6 for
  feature 0 and 0 for feature 1.
\<close>

theorem shapley_values_linear_scenario:
  "fst (shapley_values explainer_linear X_4_6 (heap_with background_2x2)) =
     Inr \<lparr>arr_dtype = Float64, arr_ncols = 2, arr_rows = [[Fin 6, Fin 0]]\<rparr>"
  using shapley_values_result[of explainer_linear "heap_with background_2x2" X_4_6]
  by (simp add: explainer_linear_def heap_with_background shapley_matrix_2x2)

text \<open>
  C4, as amended. For every feature count \<open>M \<ge> 1\<close> and every coalition size \<open>0 \<le> s \<le> M - 1\<close>,
  \<open>_permutation_factor(M, s)\<close> returns a weight, and the weight is never negative. It is strictly
  positive exactly when the exact value \<open>s! * (M - s - 1)! / M!\<close> is above \<open>2 ^ -1075\<close>, half of
  the smallest positive float, and so for every \<open>M \<le> 1064\<close>. The exact values sum to 1 when the
  value for size \<open>s\<close> is counted once for each of the \<open>M - 1\<close> choose \<open>s\<close> coalitions of that size,
  and for \<open>M \<le> 1000\<close> the returned weights, counted the same way, sum to 1 within \<open>2 ^ -53\<close>.
\<close>

theorem permutation_factor_rounded_weights:
  "1 \<le> M \<Longrightarrow>
     (\<forall>s. 0 \<le> s \<and> s \<le> M - 1 \<longrightarrow>
        (\<exists>w. permutation_factor M s = Inr w \<and> 0 \<le> w
             \<and> (0 < w \<longleftrightarrow> 2 powi (- 1075) < exact_weight M s)
             \<and> (M \<le> 1064 \<longrightarrow> 0 < w)))
     \<and> (\<Sum>s = 0 .. M - 1. of_nat (nat (M - 1) choose nat s) * exact_weight M s) = 1
     \<and> (M \<le> 1000 \<longrightarrow>
          \<bar>(\<Sum>s = 0 .. M - 1. of_nat (nat (M - 1) choose nat s) * weight_of (permutation_factor M s)) - 1\<bar>
            \<le> 1 / 2 ^ 53)"
proof (intro conjI allI impI)
  assume M: "1 \<le> M"
  show "\<exists>w. permutation_factor M s = Inr w \<and> 0 \<le> w
             \<and> (0 < w \<longleftrightarrow> 2 powi (- 1075) < exact_weight M s)
             \<and> (M \<le> 1064 \<longrightarrow> 0 < w)" if "0 \<le> s \<and> s \<le> M - 1" for s
  proof -
    from that have r: "0 \<le> s" "s \<le> M - 1" by simp_all
    from permutation_factor_rounded[OF r] obtain w where
      w: "permutation_factor M s = Inr w" "0 \<le> w" "0 < w \<longleftrightarrow> 2 powi (- 1075) < exact_weight M s"
      by blast
    have "0 < w" if "M \<le> 1064"
    proof -
      have "(2::rat) powi (- 1075) < 2 powi (- 1074)"
        by (intro power_int_strict_increasing) simp_all
      also have "(2::rat) powi (- 1074) \<le> exact_weight M s"
        using exact_weight_lower_powi[OF r that, simplified] by simp
      finally show ?thesis using w(3) by simp
    qed
    with w show ?thesis by blast
  qed
  have one: "(\<Sum>s = 0 .. M - 1. of_nat (nat (M - 1) choose nat s) * exact_weight M s) = 1"
  proof -
    have "(\<Sum>s = 0 .. M - 1. of_nat (nat (M - 1) choose nat s) * exact_weight M s)
        = (\<Sum>s = 0 .. M - 1. 1 / of_int M)"
      by (rule sum.cong) (simp_all add: exact_weight_binomial(1))
    also have "\<dots> = of_nat (card {0 .. M - 1}) * (1 / of_int M)"
      by (simp only: sum_constant)
    also have "of_nat (card {0 .. M - 1}) = (of_int M :: rat)" using M by simp
    also have "(of_int M :: rat) * (1 / of_int M) = 1" using M by simp
    finally show ?thesis .
  qed
  show "(\<Sum>s = 0 .. M - 1. of_nat (nat (M - 1) choose nat s) * exact_weight M s) = 1" by (rule one)
  show "\<bar>(\<Sum>s = 0 .. M - 1. of_nat (nat (M - 1) choose nat s) * weight_of (permutation_factor M s)) - 1\<bar>
            \<le> 1 / 2 ^ 53" if K: "M \<le> 1000"
  proof -
    define c :: "int \<Rightarrow> rat" where "c s = of_nat (nat (M - 1) choose nat s)" for s
    define w where "w s = weight_of (permutation_factor M s)" for s
    define q where "q s = exact_weight M s" for s
    have bound: "\<bar>c s * w s - c s * q s\<bar> \<le> c s * q s / 2 ^ 53" if "s \<in> {0 .. M - 1}" for s
    proof -
      from that have r: "0 \<le> s" "s \<le> M - 1" by simp_all
      have "(2::rat) powi (- 1022) \<le> 2 powi (- 1010)"
        by (intro power_int_increasing) simp_all
      also have "(2::rat) powi (- 1010) \<le> q s"
        using exact_weight_lower_powi[OF r K, simplified] by (simp add: q_def)
      finally have normal: "2 powi (- 1022) \<le> exact_weight M s" by (simp add: q_def)
      from permutation_factor_rounded[OF r] normal obtain v where
        v: "permutation_factor M s = Inr v" "\<bar>v - exact_weight M s\<bar> \<le> exact_weight M s / 2 ^ 53"
        by blast
      have wv: "w s = v" using v(1) by (simp add: w_def weight_of_def)
      have cnn: "0 \<le> c s" by (simp add: c_def)
      have "\<bar>c s * w s - c s * q s\<bar> = c s * \<bar>w s - q s\<bar>"
        using cnn by (simp add: right_diff_distrib[symmetric] abs_mult)
      also have "\<dots> \<le> c s * (q s / 2 ^ 53)"
        using v(2) cnn by (intro mult_left_mono) (simp_all add: wv q_def)
      finally show ?thesis by simp
    qed
    have "(\<Sum>s = 0 .. M - 1. c s * w s) - 1 = (\<Sum>s = 0 .. M - 1. c s * w s - c s * q s)"
      using one by (simp add: sum_subtractf c_def q_def)
    then have "\<bar>(\<Sum>s = 0 .. M - 1. c s * w s) - 1\<bar> \<le> (\<Sum>s = 0 .. M - 1. \<bar>c s * w s - c s * q s\<bar>)"
      by (simp only: sum_abs)
    also have "\<dots> \<le> (\<Sum>s = 0 .. M - 1. c s * q s / 2 ^ 53)"
      by (intro sum_mono bound)
    also have "\<dots> = (\<Sum>s = 0 .. M - 1. c s * q s) / 2 ^ 53"
      by (simp only: sum_divide_distrib)
    also have "\<dots> = 1 / 2 ^ 53" using one by (simp only: c_def q_def)
    finally show ?thesis by (simp only: c_def w_def)
  qed
qed

text \<open>The amended C4 at \<open>M = 3\<close>.\<close>

theorem permutation_factor_rounded_weights_witness:
  "(1::int) \<le> 3
   \<and> (\<exists>w. permutation_factor 3 1 = Inr w \<and> 0 < w)
   \<and> \<bar>(\<Sum>s = 0 .. (3::int) - 1. of_nat (nat (3 - 1) choose nat s) * weight_of (permutation_factor 3 s)) - 1\<bar>
        \<le> 1 / 2 ^ 53"
proof -
  have h: "(1::int) \<le> 3" by simp
  note T = permutation_factor_rounded_weights[OF h]
  from T have "\<exists>w. permutation_factor 3 1 = Inr w \<and> 0 \<le> w
             \<and> (0 < w \<longleftrightarrow> 2 powi (- 1075) < exact_weight 3 1)
             \<and> ((3::int) \<le> 1064 \<longrightarrow> 0 < w)"
    by simp
  then have a: "\<exists>w. permutation_factor 3 1 = Inr w \<and> 0 < w" by auto
  from T have b: "\<bar>(\<Sum>s = 0 .. (3::int) - 1. of_nat (nat (3 - 1) choose nat s) * weight_of (permutation_factor 3 s)) - 1\<bar>
        \<le> 1 / 2 ^ 53"
    by simp
  show ?thesis using h a b by blast
qed

text \<open>
  C4 as stated fails twice. At \<open>M = 3\<close> the three weights are the floats nearest to 1/3, 1/6 and
  1/3, and their sum is below 9/10. At \<open>M = 1077\<close> and \<open>s = 538\<close> the exact value is below
  \<open>2 ^ -1075\<close> and the returned weight is \<open>0.0\<close>, which is not strictly positive.
\<close>

theorem permutation_factor_counterexample:
  "permutation_factor 3 0 = Inr (6004799503160661 / 18014398509481984)
   \<and> permutation_factor 3 1 = Inr (6004799503160661 / 36028797018963968)
   \<and> permutation_factor 3 2 = Inr (6004799503160661 / 18014398509481984)
   \<and> (6004799503160661 / 18014398509481984 + 6004799503160661 / 36028797018963968
        + 6004799503160661 / 18014398509481984 :: rat) < 9 / 10
   \<and> permutation_factor 1077 538 = Inr 0"
proof (intro conjI)
  show "permutation_factor 3 0 = Inr (6004799503160661 / 18014398509481984)" by code_simp
  show "permutation_factor 3 1 = Inr (6004799503160661 / 36028797018963968)" by code_simp
  show "permutation_factor 3 2 = Inr (6004799503160661 / 18014398509481984)" by code_simp
  show "(6004799503160661 / 18014398509481984 + 6004799503160661 / 36028797018963968
        + 6004799503160661 / 18014398509481984 :: rat) < 9 / 10" by simp
  show "permutation_factor 1077 538 = Inr 0"
    using central_weight_underflow[of 538] by simp
qed

text \<open>
  C5, as amended. \<open>_subset_model_approximation\<close> does not compare the number of predictions
  with the number of rows: whenever the column overwrites succeed and the model returns a number
  of predictions different from the number of rows it was given, the call raises nothing and
  returns the mean of the predictions it got.
\<close>

theorem subset_model_approximation_unchecked_mean:
  "synthetic_dataset (objs h (background_dataset self)) S inst = Inr d \<Longrightarrow>
   length (model self d) \<noteq> length (arr_rows d) \<Longrightarrow>
     fst (subset_model_approximation self S inst h) = Inr (np_mean (model self d))"
  by (simp add: subset_model_approximation_result approximation_value_def)

text \<open>The amended C5 for a model that returns one prediction on the two-row background.\<close>

theorem subset_model_approximation_unchecked_mean_witness:
  "synthetic_dataset (objs (heap_with background_2x2) (background_dataset explainer_single_prediction))
       [] [4, 6] = Inr background_2x2
   \<and> length (model explainer_single_prediction background_2x2) \<noteq> length (arr_rows background_2x2)
   \<and> fst (subset_model_approximation explainer_single_prediction [] [4, 6] (heap_with background_2x2))
       = Inr (Fin 7)"
proof -
  have a: "synthetic_dataset (objs (heap_with background_2x2) (background_dataset explainer_single_prediction))
       [] [4, 6] = Inr background_2x2"
    by (simp add: explainer_single_prediction_def heap_with_background synthetic_2x2)
  have b: "length (model explainer_single_prediction background_2x2) \<noteq> length (arr_rows background_2x2)"
    by (simp add: explainer_single_prediction_def single_prediction_model_def background_2x2_def)
  have c: "np_mean (model explainer_single_prediction background_2x2) = Fin 7"
    by (simp add: explainer_single_prediction_def single_prediction_model_def np_mean_def)
  show ?thesis
    using subset_model_approximation_unchecked_mean[OF a b] a b c by simp
qed

text \<open>C5 as stated fails: the model returns one prediction for two rows, and the call returns
  their mean, 7, not an error.\<close>

theorem subset_model_approximation_no_invalid_model_error_counterexample:
  "length (single_prediction_model background_2x2) \<noteq> length (arr_rows background_2x2)
   \<and> fst (subset_model_approximation explainer_single_prediction [] [4, 6] (heap_with background_2x2))
       = Inr (Fin 7)"
proof
  show "length (single_prediction_model background_2x2) \<noteq> length (arr_rows background_2x2)"
    by (simp add: single_prediction_model_def background_2x2_def)
  show "fst (subset_model_approximation explainer_single_prediction [] [4, 6] (heap_with background_2x2))
       = Inr (Fin 7)"
    using subset_model_approximation_result[of explainer_single_prediction "[]" "[4, 6]" "heap_with background_2x2"]
    by (simp add: explainer_single_prediction_def heap_with_background approximation_value_def
          synthetic_2x2 single_prediction_model_def np_mean_def)
qed

text \<open>
  C6. When the explainer's reference to the background dataset is an object of the store, the
  contents of that object are the same after \<open>shapley_values\<close>, after
  \<open>_compute_single_shapley_value\<close> and after \<open>_subset_model_approximation\<close> as before the call, and
  the array that \<open>_subset_model_approximation\<close> writes to and passes to the model is a copy at a
  reference of its own.
\<close>

theorem background_dataset_never_mutated:
  "background_dataset self < fresh h \<Longrightarrow>
     objs (snd (shapley_values self X h)) (background_dataset self) = objs h (background_dataset self)
     \<and> objs (snd (compute_single_shapley_value self feature inst h)) (background_dataset self)
         = objs h (background_dataset self)
     \<and> objs (snd (subset_model_approximation self feature_subset inst h)) (background_dataset self)
         = objs h (background_dataset self)
     \<and> fst (deepcopy (background_dataset self) h) \<noteq> background_dataset self"
proof (intro conjI)
  assume b: "background_dataset self < fresh h"
  show "objs (snd (shapley_values self X h)) (background_dataset self) = objs h (background_dataset self)"
    using shapley_values_result[OF b, of X] frame_background[OF _ b] by blast
  show "objs (snd (compute_single_shapley_value self feature inst h)) (background_dataset self)
         = objs h (background_dataset self)"
    using compute_single_shapley_value_result[OF b, of feature inst] frame_background[OF _ b] by blast
  show "objs (snd (subset_model_approximation self feature_subset inst h)) (background_dataset self)
         = objs h (background_dataset self)"
    using subset_model_approximation_frame[of h self feature_subset inst] frame_background[OF _ b] by blast
  show "fst (deepcopy (background_dataset self) h) \<noteq> background_dataset self"
    using b by (simp add: deepcopy_def)
qed

text \<open>C6 for the linear model on the two-row background.\<close>

theorem background_dataset_never_mutated_witness:
  "background_dataset explainer_linear < fresh (heap_with background_2x2)
   \<and> objs (snd (shapley_values explainer_linear X_4_6 (heap_with background_2x2))) 0 = background_2x2
   \<and> objs (snd (subset_model_approximation explainer_linear [0] [4, 6] (heap_with background_2x2))) 0
       = background_2x2"
proof -
  have b: "background_dataset explainer_linear < fresh (heap_with background_2x2)"
    by (simp add: explainer_linear_def heap_with_background)
  show ?thesis
    using background_dataset_never_mutated[OF b, of X_4_6 0 "[4, 6]" "[0]"] b
    by (simp add: explainer_linear_def heap_with_background)
qed

text \<open>
  C7. For every list of \<open>K\<close> distinct indices, \<open>_get_all_subsets\<close> yields \<open>2 ^ K\<close> tuples; no two
  of them are the same set, none repeats an element, each holds indices of the input only, and
  together they are all the subsets of the input. For the empty input it yields the empty tuple
  and nothing else.
\<close>

theorem get_all_subsets_powerset:
  "distinct items \<Longrightarrow>
     length (get_all_subsets items) = 2 ^ length items
     \<and> distinct (map set (get_all_subsets items))
     \<and> (\<forall>S \<in> set (get_all_subsets items). distinct S \<and> set S \<subseteq> set items)
     \<and> set ` set (get_all_subsets items) = Pow (set items)
     \<and> get_all_subsets ([] :: 'a list) = [[]]"
proof (intro conjI ballI)
  assume d: "distinct items"
  show "length (get_all_subsets items) = 2 ^ length items" by (rule length_get_all_subsets)
  show "distinct (map set (get_all_subsets items))" by (rule distinct_sets_get_all_subsets[OF d])
  show "set ` set (get_all_subsets items) = Pow (set items)"
    by (simp add: set_get_all_subsets subseqs_powset)
  show "get_all_subsets ([] :: 'a list) = [[]]" by (simp add: get_all_subsets_def)
  fix S assume "S \<in> set (get_all_subsets items)"
  then have S: "S \<in> set (subseqs items)" by (simp add: set_get_all_subsets)
  show "distinct S" using S d by (rule subseqs_distinctD)
  show "set S \<subseteq> set items" using S subseqs_powset[of items] by blast
qed

text \<open>C7 for the indices 0, 1, 2.\<close>

theorem get_all_subsets_powerset_witness:
  "distinct [0 :: int, 1, 2]
   \<and> length (get_all_subsets [0 :: int, 1, 2]) = 8
   \<and> get_all_subsets [0 :: int, 1, 2] = [[], [0], [1], [2], [0, 1], [0, 2], [1, 2], [0, 1, 2]]"
proof -
  have d: "distinct [0 :: int, 1, 2]" by simp
  have e: "get_all_subsets [0 :: int, 1, 2] = [[], [0], [1], [2], [0, 1], [0, 2], [1, 2], [0, 1, 2]]"
    by (simp add: get_all_subsets_def upt_rec eval_nat_numeral)
  show ?thesis
    using get_all_subsets_powerset[OF d] d e by simp
qed

text \<open>
  C8. For every feature count \<open>M \<ge> 1\<close> and every feature \<open>0 \<le> f < M\<close>,
  \<open>_get_all_other_feature_subsets(M, f)\<close> yields the subsets of the \<open>M - 1\<close> indices of
  \<open>{0, ..., M - 1}\<close> other than \<open>f\<close>, each once: none contains \<open>f\<close>, and each has between 0 and
  \<open>M - 1\<close> elements.
\<close>

theorem get_all_other_feature_subsets_exact:
  "1 \<le> M \<Longrightarrow> 0 \<le> f \<Longrightarrow> f < M \<Longrightarrow>
     set ` set (get_all_other_feature_subsets M f) = Pow ({0 .. M - 1} - {f})
     \<and> distinct (map set (get_all_other_feature_subsets M f))
     \<and> card ({0 .. M - 1} - {f}) = nat (M - 1)
     \<and> length (get_all_other_feature_subsets M f) = 2 ^ nat (M - 1)
     \<and> (\<forall>S \<in> set (get_all_other_feature_subsets M f).
           f \<notin> set S \<and> distinct S \<and> int (length S) \<le> M - 1)"
proof (intro conjI ballI)
  assume M: "1 \<le> M" and f: "0 \<le> f" "f < M"
  define others where "others = filter (\<lambda>i. i \<noteq> f) (range_py M)"
  have g: "get_all_other_feature_subsets M f = get_all_subsets others"
    by (simp add: get_all_other_feature_subsets_def others_def)
  have d: "distinct others" by (simp add: others_def distinct_other_features)
  have s: "set others = {0 .. M - 1} - {f}" unfolding others_def by (rule set_other_features)
  have l: "length others = nat (M - 1)" using f by (simp add: others_def length_other_features)
  show "set ` set (get_all_other_feature_subsets M f) = Pow ({0 .. M - 1} - {f})"
    by (simp add: g set_get_all_subsets subseqs_powset s)
  show "distinct (map set (get_all_other_feature_subsets M f))"
    unfolding g by (rule distinct_sets_get_all_subsets[OF d])
  show "card ({0 .. M - 1} - {f}) = nat (M - 1)"
    using distinct_card[OF d] by (simp only: s l)
  show "length (get_all_other_feature_subsets M f) = 2 ^ nat (M - 1)"
    by (simp add: g length_get_all_subsets l)
  fix S assume "S \<in> set (get_all_other_feature_subsets M f)"
  then have S: "S \<in> set (subseqs others)" by (simp add: g set_get_all_subsets)
  have sub: "set S \<subseteq> set others" using S subseqs_powset[of others] by blast
  show "f \<notin> set S" using sub s by auto
  show "distinct S" using S d by (rule subseqs_distinctD)
  show "int (length S) \<le> M - 1" using length_subseqs_le[OF S] l M by simp
qed

text \<open>C8 for three features and the feature 1.\<close>

theorem get_all_other_feature_subsets_exact_witness:
  "(1::int) \<le> 3 \<and> (0::int) \<le> 1 \<and> (1::int) < 3
   \<and> get_all_other_feature_subsets 3 1 = [[], [0], [2], [0, 2]]
   \<and> set ` set (get_all_other_feature_subsets 3 1) = Pow ({0 .. 3 - 1} - {1})
   \<and> length (get_all_other_feature_subsets 3 1) = 2 ^ nat (3 - 1)"
proof -
  have e: "get_all_other_feature_subsets 3 1 = [[], [0], [2], [0, 2]]"
    by (simp add: get_all_other_feature_subsets_def range_py_def upto.simps get_all_subsets_def
          upt_rec eval_nat_numeral)
  show ?thesis
    using get_all_other_feature_subsets_exact[of 3 1] e by simp
qed

text \<open>
  C9, as amended. With a feature count \<open>M \<le> 0\<close>, \<open>_permutation_factor\<close> raises: a factorial of a
  negative number is asked for, and the call ends in \<open>ValueError\<close>. The subset enumerator
  \<open>_get_all_other_feature_subsets\<close> raises nothing for such a count; it yields the empty tuple
  and nothing else.
\<close>

theorem nonpositive_feature_count:
  "M \<le> 0 \<Longrightarrow>
     permutation_factor M s = Inl ValueError \<and> get_all_other_feature_subsets M f = [[]]"
  by (auto simp: permutation_factor_def factorial_def get_all_other_feature_subsets_def range_py_def
        get_all_subsets_def split: sum.splits)

text \<open>The amended C9 at \<open>M = 0\<close>.\<close>

theorem nonpositive_feature_count_witness:
  "(0::int) \<le> 0 \<and> permutation_factor 0 0 = Inl ValueError
   \<and> get_all_other_feature_subsets 0 0 = [[]]"
  using nonpositive_feature_count[of 0 0 0] by simp

text \<open>C9 as stated fails for the enumerator: called with the feature counts 0 and \<open>-1\<close> it
  returns a value, the list holding the empty tuple.\<close>

theorem enumerator_no_error_counterexample:
  "get_all_other_feature_subsets 0 0 = [[]] \<and> get_all_other_feature_subsets (- 1) 0 = [[]]"
  by (simp add: get_all_other_feature_subsets_def range_py_def get_all_subsets_def)



end
